theory Spec2Isabelle
  imports Main
begin

section \<open>Text primitives\<close>

text \<open>
  Text read from a file and path names are \<open>string\<close>s whose characters stand for the code
  points below 256. The strings held inside Python values are lists of code points
  (\<open>nat\<close>), since a \<^verbatim>\<open>\uXXXX\<close> escape of a JSON string can denote any code point.
\<close>

type_synonym pystr = "nat list"

definition ustr :: "string \<Rightarrow> pystr" where
  "ustr s = map of_char s"

definition ord :: "char \<Rightarrow> nat" where
  "ord c = of_char c"

text \<open>\<^verbatim>\<open>str.lower()\<close> on the code points below 256.\<close>

definition lower_char :: "char \<Rightarrow> char" where
  "lower_char c =
     (if (65 \<le> ord c \<and> ord c \<le> 90) \<or> (192 \<le> ord c \<and> ord c \<le> 222 \<and> ord c \<noteq> 215)
      then char_of (ord c + 32) else c)"

definition lower :: "string \<Rightarrow> string" where
  "lower s = map lower_char s"

text \<open>\<^verbatim>\<open>str.strip()\<close>: the characters Python counts as whitespace, below 256.\<close>

definition isspace :: "char \<Rightarrow> bool" where
  "isspace c \<longleftrightarrow>
     (9 \<le> ord c \<and> ord c \<le> 13) \<or> (28 \<le> ord c \<and> ord c \<le> 32) \<or> ord c = 133 \<or> ord c = 160"

definition strip :: "string \<Rightarrow> string" where
  "strip s = rev (dropWhile isspace (rev (dropWhile isspace s)))"

text \<open>
  \<^verbatim>\<open>PurePath.name\<close> is the final component of a path, \<^verbatim>\<open>PurePath.suffix\<close> the part of
  the name from its last dot, when that dot is neither the first nor the last character.
\<close>

definition path_name :: "string \<Rightarrow> string" where
  "path_name p = rev (takeWhile (\<lambda>c. c \<noteq> CHR ''/'') (rev p))"

definition suffix :: "string \<Rightarrow> string" where
  "suffix p =
     (let name = path_name p;
          ext = rev (takeWhile (\<lambda>c. c \<noteq> CHR ''.'') (rev name))
      in if CHR ''.'' \<in> set name \<and> ext \<noteq> [] \<and> length ext + 1 < length name
         then CHR ''.'' # ext else [])"

text \<open>
  A file opened in text mode with the default \<^verbatim>\<open>newline=None\<close> translates
  \<^verbatim>\<open>\r\n\<close> and \<^verbatim>\<open>\r\<close> to \<^verbatim>\<open>\n\<close>; iterating over it yields the lines with their
  terminating \<^verbatim>\<open>\n\<close>.
\<close>

fun translate_newlines :: "string \<Rightarrow> string" where
  "translate_newlines [] = []"
| "translate_newlines [c] = [if c = CHR 0x0D then CHR 0x0A else c]"
| "translate_newlines (c # d # cs) =
     (if c = CHR 0x0D \<and> d = CHR 0x0A then CHR 0x0A # translate_newlines cs
      else if c = CHR 0x0D then CHR 0x0A # translate_newlines (d # cs)
      else c # translate_newlines (d # cs))"

fun iter_lines :: "string \<Rightarrow> string \<Rightarrow> string list" where
  "iter_lines cur [] = (if cur = [] then [] else [cur])"
| "iter_lines cur (c # cs) =
     (if c = CHR 0x0A then (cur @ [c]) # iter_lines [] cs else iter_lines (cur @ [c]) cs)"

text \<open>
  With \<^verbatim>\<open>newline=''\<close> the lines end at \<^verbatim>\<open>\n\<close>, \<^verbatim>\<open>\r\<close> or \<^verbatim>\<open>\r\n\<close> and keep their
  terminator untranslated.
\<close>

fun iter_lines_raw :: "string \<Rightarrow> string \<Rightarrow> string list" where
  "iter_lines_raw cur [] = (if cur = [] then [] else [cur])"
| "iter_lines_raw cur [c] = [cur @ [c]]"
| "iter_lines_raw cur (c # d # cs) =
     (if c = CHR 0x0D \<and> d = CHR 0x0A then (cur @ [c, d]) # iter_lines_raw [] cs
      else if c = CHR 0x0A \<or> c = CHR 0x0D then (cur @ [c]) # iter_lines_raw [] (d # cs)
      else iter_lines_raw (cur @ [c]) (d # cs))"

section \<open>Python values and \<^verbatim>\<open>json.dump\<close>\<close>

text \<open>
  The values the readers yield. A finite float carries its decimal text (the value's
  \<^verbatim>\<open>repr\<close>); binary rounding of floats is not modelled. Dictionaries keep insertion order;
  a key is a string or \<^verbatim>\<open>None\<close> (the \<^verbatim>\<open>restkey\<close> of \<^verbatim>\<open>csv.DictReader\<close>).
\<close>

datatype pyfloat = Finite string | PosInf | NegInf | NaN

datatype pyval =
    PyNone
  | PyBool bool
  | PyInt int
  | PyFloat pyfloat
  | PyStr pystr
  | PyList "pyval list"
  | PyDict "(pystr option \<times> pyval) list"

text \<open>\<^verbatim>\<open>d[k] = v\<close>: an existing key keeps its position, a new key goes last.\<close>

fun dict_set :: "(pystr option \<times> pyval) list \<Rightarrow> pystr option \<Rightarrow> pyval \<Rightarrow> (pystr option \<times> pyval) list" where
  "dict_set [] k v = [(k, v)]"
| "dict_set ((k', v') # d) k v = (if k' = k then (k', v) # d else (k', v') # dict_set d k v)"

definition digit_char :: "nat \<Rightarrow> char" where
  "digit_char n = ''0123456789abcdef'' ! n"

fun str_nat :: "nat \<Rightarrow> string" where
  "str_nat n = (if n < 10 then [digit_char n] else str_nat (n div 10) @ [digit_char (n mod 10)])"

declare str_nat.simps [simp del]

definition str_int :: "int \<Rightarrow> string" where
  "str_int i = (if i < 0 then CHR ''-'' # str_nat (nat (- i)) else str_nat (nat i))"

definition hex4 :: "nat \<Rightarrow> string" where
  "hex4 n = [digit_char (n div 4096 mod 16), digit_char (n div 256 mod 16),
             digit_char (n div 16 mod 16), digit_char (n mod 16)]"

text \<open>
  String encoding with \<^verbatim>\<open>ensure_ascii=True\<close>: the quote, the backslash and every code
  point outside \<^verbatim>\<open>' '..'~'\<close> are escaped; code points from \<open>0x10000\<close> as a surrogate pair.
\<close>

definition escape_char :: "nat \<Rightarrow> string" where
  "escape_char n =
     (if n = 92 then [CHR 0x5C, CHR 0x5C]
      else if n = 34 then [CHR 0x5C, CHR 0x22]
      else if 32 \<le> n \<and> n \<le> 126 then [char_of n]
      else if n = 8 then [CHR 0x5C, CHR ''b'']
      else if n = 12 then [CHR 0x5C, CHR ''f'']
      else if n = 10 then [CHR 0x5C, CHR ''n'']
      else if n = 13 then [CHR 0x5C, CHR ''r'']
      else if n = 9 then [CHR 0x5C, CHR ''t'']
      else if n < 65536 then [CHR 0x5C, CHR ''u''] @ hex4 n
      else [CHR 0x5C, CHR ''u''] @ hex4 (55296 + (n - 65536) div 1024 mod 1024)
         @ [CHR 0x5C, CHR ''u''] @ hex4 (56320 + (n - 65536) mod 1024))"

definition encode_str :: "pystr \<Rightarrow> string" where
  "encode_str s = [CHR 0x22] @ concat (map escape_char s) @ [CHR 0x22]"

definition encode_key :: "pystr option \<Rightarrow> string" where
  "encode_key k = (case k of None \<Rightarrow> encode_str (ustr ''null'') | Some s \<Rightarrow> encode_str s)"

definition float_repr :: "pyfloat \<Rightarrow> string" where
  "float_repr f =
     (case f of Finite s \<Rightarrow> s | PosInf \<Rightarrow> ''Infinity'' | NegInf \<Rightarrow> ''-Infinity'' | NaN \<Rightarrow> ''NaN'')"

fun join :: "string \<Rightarrow> string list \<Rightarrow> string" where
  "join sep [] = []"
| "join sep [x] = x"
| "join sep (x # y # ys) = x @ sep @ join sep (y # ys)"

text \<open>\<^verbatim>\<open>json.dumps\<close> with its defaults (\<^verbatim>\<open>allow_nan=True\<close>, separators \<^verbatim>\<open>', '\<close> and \<^verbatim>\<open>': '\<close>).\<close>

fun json_dumps :: "pyval \<Rightarrow> string" where
  "json_dumps PyNone = ''null''"
| "json_dumps (PyBool b) = (if b then ''true'' else ''false'')"
| "json_dumps (PyInt i) = str_int i"
| "json_dumps (PyFloat f) = float_repr f"
| "json_dumps (PyStr s) = encode_str s"
| "json_dumps (PyList xs) = ''['' @ join '', '' (map json_dumps xs) @ '']''"
| "json_dumps (PyDict kvs) =
     ''{'' @ join '', '' (map (\<lambda>kv. encode_key (fst kv) @ '': '' @ json_dumps (snd kv)) kvs) @ ''}''"

section \<open>\<^verbatim>\<open>json.loads\<close>\<close>

text \<open>The exceptions the program can meet.\<close>

datatype exn = OSError string | JSONDecodeError | ValueError | TypeError | CsvError

text \<open>
  The scanner follows CPython's \<^verbatim>\<open>_json\<close> accelerator. A scan returns the value with the
  unread rest of the text, or raises. The recursion into nested arrays and objects is
  bounded by a fuel argument; \<open>NoFuel\<close> marks its exhaustion and is shown below not to occur
  for the fuel \<open>json_loads\<close> passes. The interpreter's own recursion limit, which makes
  \<^verbatim>\<open>json.loads\<close> raise on very deep nesting, is not modelled.
\<close>

datatype 'a scan = Parsed 'a string | Raise exn | NoFuel

definition is_ws :: "char \<Rightarrow> bool" where
  "is_ws c \<longleftrightarrow> c = CHR '' '' \<or> c = CHR 0x09 \<or> c = CHR 0x0A \<or> c = CHR 0x0D"

definition skip_ws :: "string \<Rightarrow> string" where
  "skip_ws s = dropWhile is_ws s"

definition is_digit :: "char \<Rightarrow> bool" where
  "is_digit c \<longleftrightarrow> 48 \<le> ord c \<and> ord c \<le> 57"

definition hex_val :: "char \<Rightarrow> nat option" where
  "hex_val c =
     (if 48 \<le> ord c \<and> ord c \<le> 57 then Some (ord c - 48)
      else if 97 \<le> ord c \<and> ord c \<le> 102 then Some (ord c - 87)
      else if 65 \<le> ord c \<and> ord c \<le> 70 then Some (ord c - 55)
      else None)"

definition decode_hex4 :: "string \<Rightarrow> nat option" where
  "decode_hex4 s =
     (case s of
        a # b # c # d # _ \<Rightarrow>
          (case (hex_val a, hex_val b, hex_val c, hex_val d) of
             (Some x, Some y, Some z, Some w) \<Rightarrow> Some (((x * 16 + y) * 16 + z) * 16 + w)
           | _ \<Rightarrow> None)
      | _ \<Rightarrow> None)"

text \<open>
  The text after a backslash inside a string: the code point it denotes and the number
  of characters it takes. A \<^verbatim>\<open>\u\<close> escape needs a character after its four digits; a
  high surrogate followed by a \<^verbatim>\<open>\u\<close> escape of a low surrogate is joined with it.
\<close>

definition unescape :: "string \<Rightarrow> (nat \<times> nat) option" where
  "unescape cs =
     (case cs of
        [] \<Rightarrow> None
      | e # es \<Rightarrow>
          if e = CHR 0x22 then Some (34, 1)
          else if e = CHR 0x5C then Some (92, 1)
          else if e = CHR ''/'' then Some (47, 1)
          else if e = CHR ''b'' then Some (8, 1)
          else if e = CHR ''f'' then Some (12, 1)
          else if e = CHR ''n'' then Some (10, 1)
          else if e = CHR ''r'' then Some (13, 1)
          else if e = CHR ''t'' then Some (9, 1)
          else if e \<noteq> CHR ''u'' then None
          else if length es < 5 then None
          else (case decode_hex4 es of
                  None \<Rightarrow> None
                | Some c \<Rightarrow>
                    if 55296 \<le> c \<and> c \<le> 56319 \<and> 10 < length es
                       \<and> es ! 4 = CHR 0x5C \<and> es ! 5 = CHR ''u''
                    then (case decode_hex4 (drop 6 es) of
                            None \<Rightarrow> None
                          | Some c2 \<Rightarrow>
                              if 56320 \<le> c2 \<and> c2 \<le> 57343
                              then Some (65536 + ((c - 55296) * 1024 + (c2 - 56320)), 11)
                              else Some (c, 5))
                    else Some (c, 5)))"

text \<open>The text after the opening quote, up to the closing one.\<close>

function scanstring :: "pystr \<Rightarrow> string \<Rightarrow> pystr scan" where
  "scanstring acc [] = Raise JSONDecodeError"
| "scanstring acc (c # cs) =
     (if c = CHR 0x22 then Parsed acc cs
      else if c = CHR 0x5C then
        (case unescape cs of
           None \<Rightarrow> Raise JSONDecodeError
         | Some (n, k) \<Rightarrow> scanstring (acc @ [n]) (drop k cs))
      else if ord c \<le> 31 then Raise JSONDecodeError
      else scanstring (acc @ [ord c]) cs)"
  by pat_completeness auto
termination
  by (relation "measure (\<lambda>(acc, s). length s)") auto

definition int_of_digits :: "string \<Rightarrow> int" where
  "int_of_digits ds = foldl (\<lambda>a c. 10 * a + (int (ord c) - 48)) 0 ds"

text \<open>
  \<^verbatim>\<open>float(text)\<close> of a JSON number: a literal whose value rounds beyond the largest
  double becomes an infinity; any other keeps its text.
\<close>

definition float_of_literal :: "bool \<Rightarrow> string \<Rightarrow> string \<Rightarrow> int \<Rightarrow> string \<Rightarrow> pyfloat" where
  "float_of_literal neg ipart fpart ex text =
     (let m = int_of_digits (ipart @ fpart);
          e = ex - int (length fpart);
          limit = (2::int) ^ 1024 - 2 ^ 970;
          overflow = (if 0 \<le> e then limit \<le> m * 10 ^ nat e else limit * 10 ^ nat (- e) \<le> m)
      in if overflow then (if neg then NegInf else PosInf) else Finite text)"

text \<open>The exponent after \<^verbatim>\<open>e\<close>: its sign as written and its digits.\<close>

definition exponent :: "string \<Rightarrow> (string \<times> string) option" where
  "exponent r =
     (case r of
        [] \<Rightarrow> None
      | y # ys \<Rightarrow>
          if y = CHR ''-'' \<or> y = CHR ''+'' then
            (let ds = takeWhile is_digit ys in if ds = [] then None else Some ([y], ds))
          else
            (let ds = takeWhile is_digit r in if ds = [] then None else Some ([], ds)))"

text \<open>
  A number: \<^verbatim>\<open>-?(0|[1-9][0-9]*)(\.[0-9]+)?([eE][-+]?[0-9]+)?\<close>. With \<open>py\<close> set, an
  integer of more than 4300 digits raises \<^verbatim>\<open>ValueError\<close>, as \<^verbatim>\<open>int\<close> does since
  Python 3.11.
\<close>

definition match_number :: "bool \<Rightarrow> string \<Rightarrow> pyval scan" where
  "match_number py s =
     (let neg = (take 1 s = ''-'');
          s1 = (if neg then drop 1 s else s);
          ipart = (case s1 of
                     [] \<Rightarrow> []
                   | c # cs \<Rightarrow>
                       if c = CHR ''0'' then [c]
                       else if is_digit c then c # takeWhile is_digit cs
                       else [])
      in if ipart = [] then Raise JSONDecodeError
         else
           let r1 = drop (length ipart) s1;
               fpart = (case r1 of
                          [] \<Rightarrow> []
                        | d # r \<Rightarrow> if d = CHR ''.'' then takeWhile is_digit r else []);
               r2 = (if fpart = [] then r1 else drop (1 + length fpart) r1);
               ex = (case r2 of
                       [] \<Rightarrow> None
                     | x # r \<Rightarrow>
                         if x = CHR ''e'' \<or> x = CHR ''E''
                         then (case exponent r of None \<Rightarrow> None | Some (sg, ds) \<Rightarrow> Some (x # sg, ds))
                         else None);
               r3 = (case ex of None \<Rightarrow> r2 | Some (mark, ds) \<Rightarrow> drop (length mark + length ds) r2);
               text = (if neg then ''-'' else []) @ ipart
                      @ (if fpart = [] then [] else CHR ''.'' # fpart)
                      @ (case ex of None \<Rightarrow> [] | Some (mark, ds) \<Rightarrow> mark @ ds)
           in if fpart = [] \<and> ex = None then
                (if py \<and> 4300 < length ipart then Raise ValueError
                 else Parsed (PyInt (if neg then - int_of_digits ipart else int_of_digits ipart)) r3)
              else
                Parsed (PyFloat (float_of_literal neg ipart fpart
                          (case ex of
                             None \<Rightarrow> 0
                           | Some (mark, ds) \<Rightarrow>
                               if CHR ''-'' \<in> set mark then - int_of_digits ds else int_of_digits ds)
                          text)) r3)"

definition starts_with :: "string \<Rightarrow> string \<Rightarrow> bool" where
  "starts_with p s \<longleftrightarrow> take (length p) s = p"

text \<open>
  \<open>scan_once py\<close> reads one JSON value. With \<open>py\<close> set it is CPython's scanner, which also
  takes the constants \<^verbatim>\<open>NaN\<close>, \<^verbatim>\<open>Infinity\<close> and \<^verbatim>\<open>-Infinity\<close>; without it, it is the
  grammar of RFC 8259. \<open>parse_array\<close> and \<open>parse_object\<close> stand at the start of an element
  (a key) with the elements read so far.
\<close>

fun scan_once :: "bool \<Rightarrow> nat \<Rightarrow> string \<Rightarrow> pyval scan"
  and parse_array :: "bool \<Rightarrow> nat \<Rightarrow> pyval list \<Rightarrow> string \<Rightarrow> pyval scan"
  and parse_object :: "bool \<Rightarrow> nat \<Rightarrow> (pystr option \<times> pyval) list \<Rightarrow> string \<Rightarrow> pyval scan"
where
  "scan_once py 0 s = NoFuel"
| "scan_once py (Suc n) s =
     (case s of
        [] \<Rightarrow> Raise JSONDecodeError
      | c # cs \<Rightarrow>
          if c = CHR 0x22 then
            (case scanstring [] cs of
               Parsed str r \<Rightarrow> Parsed (PyStr str) r
             | Raise e \<Rightarrow> Raise e
             | NoFuel \<Rightarrow> NoFuel)
          else if c = CHR ''{'' then
            (case skip_ws cs of
               [] \<Rightarrow> Raise JSONDecodeError
             | d # r \<Rightarrow> if d = CHR ''}'' then Parsed (PyDict []) r else parse_object py n [] (d # r))
          else if c = CHR ''['' then
            (case skip_ws cs of
               [] \<Rightarrow> Raise JSONDecodeError
             | d # r \<Rightarrow> if d = CHR '']'' then Parsed (PyList []) r else parse_array py n [] (d # r))
          else if starts_with ''null'' s then Parsed PyNone (drop 4 s)
          else if starts_with ''true'' s then Parsed (PyBool True) (drop 4 s)
          else if starts_with ''false'' s then Parsed (PyBool False) (drop 5 s)
          else if py \<and> starts_with ''NaN'' s then Parsed (PyFloat NaN) (drop 3 s)
          else if py \<and> starts_with ''Infinity'' s then Parsed (PyFloat PosInf) (drop 8 s)
          else if py \<and> starts_with ''-Infinity'' s then Parsed (PyFloat NegInf) (drop 9 s)
          else match_number py s)"
| "parse_array py 0 acc s = NoFuel"
| "parse_array py (Suc n) acc s =
     (case scan_once py n s of
        Raise e \<Rightarrow> Raise e
      | NoFuel \<Rightarrow> NoFuel
      | Parsed v r \<Rightarrow>
          (case skip_ws r of
             [] \<Rightarrow> Raise JSONDecodeError
           | c # r' \<Rightarrow>
               if c = CHR '']'' then Parsed (PyList (acc @ [v])) r'
               else if c = CHR '','' then parse_array py n (acc @ [v]) (skip_ws r')
               else Raise JSONDecodeError))"
| "parse_object py 0 acc s = NoFuel"
| "parse_object py (Suc n) acc s =
     (case s of
        [] \<Rightarrow> Raise JSONDecodeError
      | q # ks \<Rightarrow>
          if q \<noteq> CHR 0x22 then Raise JSONDecodeError
          else
            (case scanstring [] ks of
               Raise e \<Rightarrow> Raise e
             | NoFuel \<Rightarrow> NoFuel
             | Parsed key r \<Rightarrow>
                 (case skip_ws r of
                    [] \<Rightarrow> Raise JSONDecodeError
                  | c # r' \<Rightarrow>
                      if c \<noteq> CHR '':'' then Raise JSONDecodeError
                      else
                        (case scan_once py n (skip_ws r') of
                           Raise e \<Rightarrow> Raise e
                         | NoFuel \<Rightarrow> NoFuel
                         | Parsed v r2 \<Rightarrow>
                             (case skip_ws r2 of
                                [] \<Rightarrow> Raise JSONDecodeError
                              | d # r3 \<Rightarrow>
                                  if d = CHR ''}'' then Parsed (PyDict (dict_set acc (Some key) v)) r3
                                  else if d = CHR '','' then
                                    parse_object py n (dict_set acc (Some key) v) (skip_ws r3)
                                  else Raise JSONDecodeError)))))"

text \<open>
  \<^verbatim>\<open>decode\<close>: whitespace, one value, whitespace, end of text. The fuel is twice the
  length of the text plus one.
\<close>

fun fuel_of :: "string \<Rightarrow> nat" where
  "fuel_of [] = Suc 0"
| "fuel_of (c # cs) = Suc (Suc (fuel_of cs))"

definition decode :: "bool \<Rightarrow> string \<Rightarrow> pyval scan" where
  "decode py s =
     (case scan_once py (fuel_of s) (skip_ws s) of
        Parsed v r \<Rightarrow> if skip_ws r = [] then Parsed v [] else Raise JSONDecodeError
      | Raise e \<Rightarrow> Raise e
      | NoFuel \<Rightarrow> NoFuel)"

definition json_loads :: "string \<Rightarrow> exn + pyval" where
  "json_loads s =
     (case decode True s of
        Parsed v _ \<Rightarrow> Inr v
      | Raise e \<Rightarrow> Inl e
      | NoFuel \<Rightarrow> Inl JSONDecodeError)"

text \<open>A text is valid JSON when it is one value of the grammar of RFC 8259.\<close>

definition valid_json :: "string \<Rightarrow> bool" where
  "valid_json s \<longleftrightarrow> (case decode False s of Parsed _ _ \<Rightarrow> True | _ \<Rightarrow> False)"

section \<open>\<^verbatim>\<open>csv.reader\<close> and \<^verbatim>\<open>csv.DictReader\<close>\<close>

text \<open>
  The reader's state machine for the default \<^verbatim>\<open>excel\<close> dialect: delimiter \<^verbatim>\<open>,\<close>, quote
  character \<^verbatim>\<open>"\<close> doubled inside a quoted field, no escape character, not strict. A field
  cannot grow beyond the field size limit.
\<close>

datatype csv_state =
  START_RECORD | START_FIELD | IN_FIELD | IN_QUOTED_FIELD | QUOTE_IN_QUOTED_FIELD | EAT_CRNL

record reader =
  rd_state :: csv_state
  rd_fields :: "string list"
  rd_field :: string

definition field_limit :: nat where
  "field_limit = 131072"

definition parse_reset :: reader where
  "parse_reset = \<lparr>rd_state = START_RECORD, rd_fields = [], rd_field = []\<rparr>"

definition parse_save_field :: "reader \<Rightarrow> reader" where
  "parse_save_field r = r\<lparr>rd_fields := rd_fields r @ [rd_field r], rd_field := []\<rparr>"

definition parse_add_char :: "reader \<Rightarrow> char \<Rightarrow> exn + reader" where
  "parse_add_char r c =
     (if field_limit \<le> length (rd_field r) then Inl CsvError
      else Inr (r\<lparr>rd_field := rd_field r @ [c]\<rparr>))"

definition is_crnl :: "char \<Rightarrow> bool" where
  "is_crnl c \<longleftrightarrow> c = CHR 0x0A \<or> c = CHR 0x0D"

text \<open>One character of a line; \<open>None\<close> is the end of the line.\<close>

definition start_field :: "reader \<Rightarrow> char option \<Rightarrow> exn + reader" where
  "start_field r c =
     (case c of
        None \<Rightarrow> Inr ((parse_save_field r)\<lparr>rd_state := START_RECORD\<rparr>)
      | Some ch \<Rightarrow>
          if is_crnl ch then Inr ((parse_save_field r)\<lparr>rd_state := EAT_CRNL\<rparr>)
          else if ch = CHR 0x22 then Inr (r\<lparr>rd_state := IN_QUOTED_FIELD\<rparr>)
          else if ch = CHR '','' then Inr (parse_save_field r)
          else (case parse_add_char r ch of
                  Inl e \<Rightarrow> Inl e
                | Inr r' \<Rightarrow> Inr (r'\<lparr>rd_state := IN_FIELD\<rparr>)))"

definition parse_process_char :: "reader \<Rightarrow> char option \<Rightarrow> exn + reader" where
  "parse_process_char r c =
     (case rd_state r of
        START_RECORD \<Rightarrow>
          (case c of
             None \<Rightarrow> Inr r
           | Some ch \<Rightarrow>
               if is_crnl ch then Inr (r\<lparr>rd_state := EAT_CRNL\<rparr>)
               else start_field (r\<lparr>rd_state := START_FIELD\<rparr>) c)
      | START_FIELD \<Rightarrow> start_field r c
      | IN_FIELD \<Rightarrow>
          (case c of
             None \<Rightarrow> Inr ((parse_save_field r)\<lparr>rd_state := START_RECORD\<rparr>)
           | Some ch \<Rightarrow>
               if is_crnl ch then Inr ((parse_save_field r)\<lparr>rd_state := EAT_CRNL\<rparr>)
               else if ch = CHR '','' then Inr ((parse_save_field r)\<lparr>rd_state := START_FIELD\<rparr>)
               else parse_add_char r ch)
      | IN_QUOTED_FIELD \<Rightarrow>
          (case c of
             None \<Rightarrow> Inr r
           | Some ch \<Rightarrow>
               if ch = CHR 0x22 then Inr (r\<lparr>rd_state := QUOTE_IN_QUOTED_FIELD\<rparr>)
               else parse_add_char r ch)
      | QUOTE_IN_QUOTED_FIELD \<Rightarrow>
          (case c of
             None \<Rightarrow> Inr ((parse_save_field r)\<lparr>rd_state := START_RECORD\<rparr>)
           | Some ch \<Rightarrow>
               if ch = CHR 0x22 then
                 (case parse_add_char r ch of
                    Inl e \<Rightarrow> Inl e
                  | Inr r' \<Rightarrow> Inr (r'\<lparr>rd_state := IN_QUOTED_FIELD\<rparr>))
               else if ch = CHR '','' then Inr ((parse_save_field r)\<lparr>rd_state := START_FIELD\<rparr>)
               else if is_crnl ch then Inr ((parse_save_field r)\<lparr>rd_state := EAT_CRNL\<rparr>)
               else (case parse_add_char r ch of
                       Inl e \<Rightarrow> Inl e
                     | Inr r' \<Rightarrow> Inr (r'\<lparr>rd_state := IN_FIELD\<rparr>)))
      | EAT_CRNL \<Rightarrow>
          (case c of
             None \<Rightarrow> Inr (r\<lparr>rd_state := START_RECORD\<rparr>)
           | Some ch \<Rightarrow> if is_crnl ch then Inr r else Inl CsvError))"

text \<open>The characters of one line, then the end of the line.\<close>

fun process_line :: "reader \<Rightarrow> string \<Rightarrow> exn + reader" where
  "process_line r [] = parse_process_char r None"
| "process_line r (c # cs) =
     (case parse_process_char r (Some c) of
        Inl e \<Rightarrow> Inl e
      | Inr r' \<Rightarrow> process_line r' cs)"

text \<open>
  The rows the reader yields over the lines of a file, and the exception that ends the
  iteration early, if any. A record ends when a line leaves the machine in
  \<open>START_RECORD\<close>; at the end of the input a pending rd_field still makes a record.
\<close>

fun csv_reader :: "reader \<Rightarrow> string list \<Rightarrow> string list list \<times> exn option" where
  "csv_reader r [] =
     (if rd_field r \<noteq> [] \<or> rd_state r = IN_QUOTED_FIELD
      then ([rd_fields (parse_save_field r)], None) else ([], None))"
| "csv_reader r (l # ls) =
     (case process_line r l of
        Inl e \<Rightarrow> ([], Some e)
      | Inr r' \<Rightarrow>
          if rd_state r' = START_RECORD
          then (case csv_reader parse_reset ls of (rows, e) \<Rightarrow> (rd_fields r' # rows, e))
          else csv_reader r' ls)"

text \<open>
  \<^verbatim>\<open>DictReader.__next__\<close>: \<^verbatim>\<open>dict(zip(fieldnames, row))\<close>, then the surplus of a long
  row under the key \<^verbatim>\<open>None\<close>, or \<^verbatim>\<open>None\<close> for the missing rd_fields of a short one.
\<close>

definition dict_row :: "string list \<Rightarrow> string list \<Rightarrow> pyval" where
  "dict_row fieldnames row =
     (let d = foldl (\<lambda>d kv. dict_set d (Some (ustr (fst kv))) (PyStr (ustr (snd kv)))) []
                (zip fieldnames row);
          lf = length fieldnames;
          lr = length row
      in PyDict
           (if lf < lr then dict_set d None (PyList (map (\<lambda>v. PyStr (ustr v)) (drop lf row)))
            else if lr < lf then foldl (\<lambda>d k. dict_set d (Some (ustr k)) PyNone) d (drop lr fieldnames)
            else d))"

text \<open>The first row gives the rd_field names; empty rows are passed over.\<close>

definition dict_reader :: "string list \<Rightarrow> pyval list \<times> exn option" where
  "dict_reader ls =
     (case csv_reader parse_reset ls of
        ([], e) \<Rightarrow> ([], e)
      | (fieldnames # rows, e) \<Rightarrow>
          (map (dict_row fieldnames) (filter (\<lambda>row. row \<noteq> []) rows), e))"

section \<open>Files, folders and the observable state\<close>

text \<open>
  A file's content is its decoded text, or the message of the \<^verbatim>\<open>OSError\<close> that opening it
  raises; a file that opens is taken to decode as UTF-8 to its end. An entry of a folder
  is a regular file or something else; an entry of the
  landing zone is a directory with its entries, or something else. Entries are kept in
  the order \<^verbatim>\<open>iterdir\<close> lists them and carry their path.
\<close>

datatype content = Unreadable string | Text string

datatype entry = File string content | NotFile string

datatype lz_entry = Dir string "entry list" | NotDir string

text \<open>
  What a run leaves behind: the decoded text of each output artifact by path, the text
  appended to the skip log, whether the log directory exists (the program does not
  create it), and the lines printed.
\<close>

record world =
  artifacts :: "string \<rightharpoonup> string"
  skip_log :: string
  log_zone :: bool
  stdout :: "string list"

definition print :: "string \<Rightarrow> world \<Rightarrow> world" where
  "print line w = w\<lparr>stdout := stdout w @ [line]\<rparr>"

text \<open>The message of an exception; only that of an \<^verbatim>\<open>OSError\<close> is kept in detail.\<close>

definition exn_str :: "exn \<Rightarrow> string" where
  "exn_str e =
     (case e of
        OSError msg \<Rightarrow> msg
      | JSONDecodeError \<Rightarrow> ''JSONDecodeError''
      | ValueError \<Rightarrow> ''ValueError''
      | TypeError \<Rightarrow> ''TypeError''
      | CsvError \<Rightarrow> ''Error'')"

definition output_path :: "string \<Rightarrow> string" where
  "output_path folder = ''processed_data/'' @ path_name folder @ ''.json.gz''"

text \<open>\<^verbatim>\<open>gzip.open(output_path, 'wt')\<close>: the artifact exists and is empty.\<close>

definition open_output :: "string \<Rightarrow> world \<Rightarrow> world" where
  "open_output out w = w\<lparr>artifacts := (artifacts w)(out \<mapsto> [])\<rparr>"

text \<open>\<^verbatim>\<open>json.dump(record, out_file); out_file.write('\n')\<close> for each record.\<close>

definition record_text :: "pyval list \<Rightarrow> string" where
  "record_text recs = concat (map (\<lambda>r. json_dumps r @ [CHR 0x0A]) recs)"

definition write_records :: "string \<Rightarrow> pyval list \<Rightarrow> world \<Rightarrow> world" where
  "write_records out recs w =
     w\<lparr>artifacts := (artifacts w)
          (out \<mapsto> (case artifacts w out of None \<Rightarrow> [] | Some t \<Rightarrow> t) @ record_text recs)\<rparr>"

section \<open>The readers\<close>

text \<open>
  A reader is a generator: it yields records one by one and may end by raising. Its
  model is the list of records yielded and the exception, if any.
\<close>

type_synonym records = "pyval list \<times> exn option"

text \<open>\<^verbatim>\<open>for item in data\<close> over the value \<^verbatim>\<open>json.load\<close> returned.\<close>

definition iter_value :: "pyval \<Rightarrow> records" where
  "iter_value data =
     (case data of
        PyList items \<Rightarrow> (items, None)
      | PyDict kvs \<Rightarrow> (map (\<lambda>kv. case fst kv of None \<Rightarrow> PyNone | Some k \<Rightarrow> PyStr k) kvs, None)
      | PyStr str \<Rightarrow> (map (\<lambda>c. PyStr [c]) str, None)
      | _ \<Rightarrow> ([], Some TypeError))"

definition read_csv :: "content \<Rightarrow> records" where
  "read_csv c =
     (case c of
        Unreadable msg \<Rightarrow> ([], Some (OSError msg))
      | Text t \<Rightarrow> dict_reader (iter_lines_raw [] t))"

text \<open>Array mode: the whole text is one JSON value, whose items are yielded.\<close>

definition read_array :: "string \<Rightarrow> records" where
  "read_array t = (case json_loads t of Inl e \<Rightarrow> ([], Some e) | Inr data \<Rightarrow> iter_value data)"

text \<open>
  Newline-delimited mode of \<open>read_json\<close>: each line is stripped; a non-empty one is
  decoded, and skipped when decoding raises \<^verbatim>\<open>JSONDecodeError\<close>.
\<close>

fun read_lines :: "string list \<Rightarrow> records" where
  "read_lines [] = ([], None)"
| "read_lines (line # ls) =
     (if strip line \<noteq> [] then
        (case json_loads (strip line) of
           Inr v \<Rightarrow> (case read_lines ls of (vs, e) \<Rightarrow> (v # vs, e))
         | Inl e \<Rightarrow> if e = JSONDecodeError then read_lines ls else ([], Some e))
      else read_lines ls)"

definition read_json :: "content \<Rightarrow> records" where
  "read_json c =
     (case c of
        Unreadable msg \<Rightarrow> ([], Some (OSError msg))
      | Text raw \<Rightarrow>
          (let t = translate_newlines raw;
               first_char = take 1 t
           in if first_char = ''['' then read_array t else read_lines (iter_lines [] t)))"

text \<open>
  Newline-delimited mode of \<open>read_pd_json\<close>: the line is tested stripped, and decoded as it
  is.
\<close>

fun read_pd_lines :: "string list \<Rightarrow> records" where
  "read_pd_lines [] = ([], None)"
| "read_pd_lines (line # ls) =
     (if strip line \<noteq> [] then
        (case json_loads line of
           Inr v \<Rightarrow> (case read_pd_lines ls of (vs, e) \<Rightarrow> (v # vs, e))
         | Inl e \<Rightarrow> if e = JSONDecodeError then read_pd_lines ls else ([], Some e))
      else read_pd_lines ls)"

text \<open>The body of \<open>read_pd_json\<close> inside its \<^verbatim>\<open>try\<close>.\<close>

definition read_pd_json_body :: "content \<Rightarrow> records" where
  "read_pd_json_body c =
     (case c of
        Unreadable msg \<Rightarrow> ([], Some (OSError msg))
      | Text raw \<Rightarrow>
          (let t = translate_newlines raw;
               first_char = take 1 t
           in if first_char = ''['' then read_array t else read_pd_lines (iter_lines [] t)))"

text \<open>\<open>read_pd_json\<close> catches every exception of its body and prints it.\<close>

definition read_pd_json :: "string \<Rightarrow> content \<Rightarrow> world \<Rightarrow> pyval list \<times> world" where
  "read_pd_json file_path c w =
     (case read_pd_json_body c of
        (recs, None) \<Rightarrow> (recs, w)
      | (recs, Some e) \<Rightarrow> (recs, print (''Error reading '' @ file_path @ '': '' @ exn_str e) w))"

text \<open>
  \<open>read_pd_csv\<close> chains the records of the chunks \<^verbatim>\<open>pd.read_csv\<close> returns. The pandas
  parser is a parameter: from a file's content to the records of each chunk (after
  \<^verbatim>\<open>to_dict(orient="records")\<close>) and the exception it raises, if any.
\<close>

type_synonym pandas = "content \<Rightarrow> pyval list list \<times> exn option"

definition read_pd_csv :: "pandas \<Rightarrow> content \<Rightarrow> records" where
  "read_pd_csv pd c = (case pd c of (chunks, e) \<Rightarrow> (concat chunks, e))"

text \<open>
  \<open>read_records\<close> dispatches on the lower-cased suffix. For any other suffix it appends
  to the skip log, which raises when the log directory is missing.
\<close>

definition read_records :: "string \<Rightarrow> content \<Rightarrow> world \<Rightarrow> records \<times> world" where
  "read_records file_path c w =
     (let ext = lower (suffix file_path)
      in if ext = ''.csv'' then (read_csv c, w)
         else if ext = ''.json'' then (read_json c, w)
         else if log_zone w
         then (([], None),
               w\<lparr>skip_log := skip_log w @ ''[SKIPPED] unsupported file format: '' @ file_path\<rparr>)
         else (([], Some (OSError ''No such file or directory'')), w))"

section \<open>The two pipelines and the driver\<close>

text \<open>
  The loop of \<open>process_folder\<close> over the entries, with the artifact open. An exception of
  a reader ends the loop; the records yielded before it are written.
\<close>

fun consolidate :: "string \<Rightarrow> entry list \<Rightarrow> world \<Rightarrow> world \<times> exn option" where
  "consolidate out [] w = (w, None)"
| "consolidate out (NotFile p # fs) w = consolidate out fs w"
| "consolidate out (File p c # fs) w =
     (if lower (suffix p) = ''.csv'' \<or> lower (suffix p) = ''.json'' then
        (case read_records p c w of
           ((recs, None), w') \<Rightarrow> consolidate out fs (write_records out recs w')
         | ((recs, Some e), w') \<Rightarrow> (write_records out recs w', Some e))
      else consolidate out fs w)"

definition process_folder :: "string \<Rightarrow> entry list \<Rightarrow> world \<Rightarrow> world \<times> exn option" where
  "process_folder subfolder files w =
     consolidate (output_path subfolder) files (open_output (output_path subfolder) w)"

fun pd_consolidate :: "pandas \<Rightarrow> string \<Rightarrow> entry list \<Rightarrow> world \<Rightarrow> world \<times> exn option" where
  "pd_consolidate pd out [] w = (w, None)"
| "pd_consolidate pd out (NotFile p # fs) w = pd_consolidate pd out fs w"
| "pd_consolidate pd out (File p c # fs) w =
     (if lower (suffix p) = ''.csv'' then
        (case read_pd_csv pd c of
           (recs, None) \<Rightarrow> pd_consolidate pd out fs (write_records out recs w)
         | (recs, Some e) \<Rightarrow> (write_records out recs w, Some e))
      else if lower (suffix p) = ''.json'' then
        (case read_pd_json p c w of
           (recs, w') \<Rightarrow> pd_consolidate pd out fs (write_records out recs w'))
      else pd_consolidate pd out fs (print (''Unsupported file format: '' @ p) w))"

definition pd_process_folder :: "pandas \<Rightarrow> string \<Rightarrow> entry list \<Rightarrow> world \<Rightarrow> world \<times> exn option" where
  "pd_process_folder pd subfolder files w =
     pd_consolidate pd (output_path subfolder) files (open_output (output_path subfolder) w)"

text \<open>\<open>main\<close> over the entries of the landing zone; an exception ends the run.\<close>

fun main :: "pandas \<Rightarrow> string \<Rightarrow> lz_entry list \<Rightarrow> world \<Rightarrow> world \<times> exn option" where
  "main pd option [] w = (w, None)"
| "main pd option (NotDir p # rest) w = main pd option rest w"
| "main pd option (Dir p files # rest) w =
     (if option = ''pandas'' then
        (case process_folder p files (print (''processing with pandas: '' @ path_name p) w) of
           (w', None) \<Rightarrow> main pd option rest w'
         | (w', Some e) \<Rightarrow> (w', Some e))
      else
        (case pd_process_folder pd p files
                (print (''processing in python generators : '' @ path_name p) w) of
           (w', None) \<Rightarrow> main pd option rest w'
         | (w', Some e) \<Rightarrow> (w', Some e)))"

definition empty_world :: world where
  "empty_world = \<lparr>artifacts = Map.empty, skip_log = [], log_zone = True, stdout = []\<rparr>"

section \<open>Notions of the specification\<close>









text \<open>The number of lines of a text: its newline characters.\<close>

definition line_count :: "string \<Rightarrow> nat" where
  "line_count text = length (filter (\<lambda>c. c = CHR 0x0A) text)"


section \<open>Sample inputs\<close>

text \<open>
  Two instances of the pandas parameter, each standing for what \<^verbatim>\<open>pd.read_csv\<close> and
  \<^verbatim>\<open>to_dict\<close> return on one sample file: integer cells come back as integers, and an
  empty cell as the float \<^verbatim>\<open>nan\<close>.
\<close>

definition pd_int_cells :: pandas where
  "pd_int_cells c =
     (if c = Text ''a,b,c\<newline>1,2,3\<newline>''
      then ([[PyDict [(Some (ustr ''a''), PyInt 1), (Some (ustr ''b''), PyInt 2),
                      (Some (ustr ''c''), PyInt 3)]]], None)
      else ([], None))"

definition pd_missing_cell :: pandas where
  "pd_missing_cell c =
     (if c = Text ''a,b\<newline>1,\<newline>''
      then ([[PyDict [(Some (ustr ''a''), PyInt 1), (Some (ustr ''b''), PyFloat NaN)]]], None)
      else ([], None))"

section \<open>Evaluation\<close>

text \<open>The definitions the simplifier unfolds to run the model on a concrete input.\<close>

lemmas text_defs = ustr_def ord_def lower_char_def lower_def isspace_def strip_def path_name_def
  suffix_def char_of_def bit_Suc_0_iff

lemmas dumps_defs = digit_char_def str_nat.simps str_int_def hex4_def escape_char_def encode_str_def
  encode_key_def float_repr_def record_text_def

lemmas loads_defs = is_ws_def skip_ws_def is_digit_def hex_val_def decode_hex4_def unescape_def
  int_of_digits_def float_of_literal_def exponent_def match_number_def starts_with_def decode_def
  json_loads_def valid_json_def

lemmas csv_defs = field_limit_def parse_reset_def parse_save_field_def parse_add_char_def is_crnl_def
  start_field_def parse_process_char_def dict_row_def dict_reader_def

lemmas reader_defs = iter_value_def read_csv_def read_array_def read_json_def read_pd_json_body_def
  read_pd_json_def read_pd_csv_def read_records_def exn_str_def

lemmas run_defs = print_def output_path_def open_output_def write_records_def process_folder_def
  pd_process_folder_def empty_world_def

lemmas eval_defs = text_defs dumps_defs loads_defs csv_defs reader_defs run_defs

section \<open>The skip log\<close>

lemma skip_log_write_records [simp]: "skip_log (write_records out rs w) = skip_log w"
  by (simp add: write_records_def)

lemma skip_log_print [simp]: "skip_log (print l w) = skip_log w"
  by (simp add: print_def)

lemma skip_log_open_output [simp]: "skip_log (open_output out w) = skip_log w"
  by (simp add: open_output_def)

lemma read_records_supported:
  "lower (suffix p) = ''.csv'' \<or> lower (suffix p) = ''.json'' \<Longrightarrow>
   read_records p c w = (if lower (suffix p) = ''.csv'' then read_csv c else read_json c, w)"
  by (auto simp: read_records_def Let_def)

lemma consolidate_skip_log: "skip_log (fst (consolidate out fs w)) = skip_log w"
proof (induction fs arbitrary: w)
  case Nil
  then show ?case by simp
next
  case (Cons f fs)
  show ?case
  proof (cases f)
    case (NotFile p)
    with Cons show ?thesis by simp
  next
    case (File p c)
    show ?thesis
    proof (cases "lower (suffix p) = ''.csv'' \<or> lower (suffix p) = ''.json''")
      case False
      with Cons File show ?thesis by simp
    next
      case True
      obtain recs e where r: "(if lower (suffix p) = ''.csv'' then read_csv c else read_json c) = (recs, e)"
        by (cases "if lower (suffix p) = ''.csv'' then read_csv c else read_json c")
      have rr: "read_records p c w = ((recs, e), w)"
        using True r by (simp add: read_records_supported)
      show ?thesis
      proof (cases e)
        case None
        with Cons.IH[of "write_records out recs w"] File True rr show ?thesis by simp
      next
        case (Some x)
        with File True rr show ?thesis by simp
      qed
    qed
  qed
qed

lemma read_pd_json_eq:
  "read_pd_json p c w =
     (fst (read_pd_json_body c),
      case snd (read_pd_json_body c) of
        None \<Rightarrow> w
      | Some e \<Rightarrow> print (''Error reading '' @ p @ '': '' @ exn_str e) w)"
  by (simp add: read_pd_json_def split: prod.splits option.splits)

lemma skip_log_read_pd_json [simp]: "skip_log (snd (read_pd_json p c w)) = skip_log w"
  by (simp add: read_pd_json_eq split: option.splits)

lemma pd_consolidate_skip_log: "skip_log (fst (pd_consolidate pd out fs w)) = skip_log w"
proof (induction fs arbitrary: w)
  case Nil
  then show ?case by simp
next
  case (Cons f fs)
  show ?case
  proof (cases f)
    case (NotFile p)
    with Cons show ?thesis by simp
  next
    case (File p c)
    show ?thesis
    proof (cases "lower (suffix p) = ''.csv''")
      case True
      obtain recs e where r: "read_pd_csv pd c = (recs, e)" by (cases "read_pd_csv pd c")
      show ?thesis
      proof (cases e)
        case None
        with Cons.IH[of "write_records out recs w"] File True r show ?thesis by simp
      next
        case (Some x)
        with File True r show ?thesis by simp
      qed
    next
      case False
      show ?thesis
      proof (cases "lower (suffix p) = ''.json''")
        case True
        have "pd_consolidate pd out (f # fs) w
                = pd_consolidate pd out fs
                    (write_records out (fst (read_pd_json p c w)) (snd (read_pd_json p c w)))"
          using File False True by (simp add: prod.case_eq_if)
        with Cons.IH[of "write_records out (fst (read_pd_json p c w)) (snd (read_pd_json p c w))"]
        show ?thesis by simp
      next
        case nj: False
        with Cons.IH[of "print (''Unsupported file format: '' @ p) w"] File False
        show ?thesis by simp
      qed
    qed
  qed
qed

lemma process_folder_skip_log: "skip_log (fst (process_folder d fs w)) = skip_log w"
  by (simp add: process_folder_def consolidate_skip_log)

lemma pd_process_folder_skip_log: "skip_log (fst (pd_process_folder pd d fs w)) = skip_log w"
  by (simp add: pd_process_folder_def pd_consolidate_skip_log)

text \<open>
  C2 (defect of the code). A regular file with an unsupported suffix adds nothing to the
  artifact, and neither pipeline writes the skip log: \<open>process_folder\<close> filters such a
  file out before \<open>read_records\<close> could log it, and \<open>pd_process_folder\<close> prints a line
  instead. The claim expects one skip log line per such file; no folder at all makes
  either pipeline write one.
\<close>

theorem unsupported_file_not_logged:
  "process_folder ''raw_data/t'' [File ''raw_data/t/notes.txt'' (Text ''hello'')] empty_world
     = (empty_world\<lparr>artifacts := [''processed_data/t.json.gz'' \<mapsto> []]\<rparr>, None)
   \<and> pd_process_folder pd ''raw_data/t'' [File ''raw_data/t/notes.txt'' (Text ''hello'')] empty_world
     = (empty_world\<lparr>artifacts := [''processed_data/t.json.gz'' \<mapsto> []],
                     stdout := [''Unsupported file format: raw_data/t/notes.txt'']\<rparr>, None)
   \<and> skip_log empty_world = []
   \<and> skip_log (fst (process_folder d fs w)) = skip_log w
   \<and> skip_log (fst (pd_process_folder pd d fs w)) = skip_log w"
proof -
  have "process_folder ''raw_data/t'' [File ''raw_data/t/notes.txt'' (Text ''hello'')] empty_world
          = (empty_world\<lparr>artifacts := [''processed_data/t.json.gz'' \<mapsto> []]\<rparr>, None)"
    by (simp add: eval_defs)
  moreover
  have "pd_process_folder pd ''raw_data/t'' [File ''raw_data/t/notes.txt'' (Text ''hello'')] empty_world
          = (empty_world\<lparr>artifacts := [''processed_data/t.json.gz'' \<mapsto> []],
                          stdout := [''Unsupported file format: raw_data/t/notes.txt'']\<rparr>, None)"
    by (simp add: eval_defs)
  moreover have "skip_log empty_world = []"
    by (simp add: empty_world_def)
  ultimately show ?thesis
    using process_folder_skip_log[of d fs w] pd_process_folder_skip_log[of pd d fs w]
    by (simp only: simp_thms)
qed

section \<open>The artifact does not depend on what was there before\<close>

lemma artifacts_write_records:
  "artifacts (write_records out rs w) out
     = Some ((case artifacts w out of None \<Rightarrow> [] | Some t \<Rightarrow> t) @ record_text rs)"
  by (simp add: write_records_def)

lemma artifacts_print [simp]: "artifacts (print l w) = artifacts w"
  by (simp add: print_def)

lemma artifacts_read_pd_json [simp]: "artifacts (snd (read_pd_json p c w)) = artifacts w"
  by (simp add: read_pd_json_eq split: option.splits)

lemma fst_read_pd_json [simp]: "fst (read_pd_json p c w) = fst (read_pd_json_body c)"
  by (simp add: read_pd_json_eq)

lemma artifacts_open_output [simp]: "artifacts (open_output out w) out = Some []"
  by (simp add: open_output_def)

lemma consolidate_artifact_cong:
  "artifacts w1 out = artifacts w2 out \<Longrightarrow>
   artifacts (fst (consolidate out fs w1)) out = artifacts (fst (consolidate out fs w2)) out
   \<and> snd (consolidate out fs w1) = snd (consolidate out fs w2)"
proof (induction fs arbitrary: w1 w2)
  case Nil
  then show ?case by simp
next
  case (Cons f fs)
  show ?case
  proof (cases f)
    case (NotFile p)
    with Cons.IH[OF Cons.prems] show ?thesis by simp
  next
    case (File p c)
    show ?thesis
    proof (cases "lower (suffix p) = ''.csv'' \<or> lower (suffix p) = ''.json''")
      case False
      with Cons.IH[OF Cons.prems] File show ?thesis by simp
    next
      case True
      obtain recs e where r: "(if lower (suffix p) = ''.csv'' then read_csv c else read_json c) = (recs, e)"
        by (cases "if lower (suffix p) = ''.csv'' then read_csv c else read_json c")
      have rr: "read_records p c w1 = ((recs, e), w1)" "read_records p c w2 = ((recs, e), w2)"
        using True r by (simp_all add: read_records_supported)
      have eq: "artifacts (write_records out recs w1) out = artifacts (write_records out recs w2) out"
        using Cons.prems by (simp add: artifacts_write_records)
      show ?thesis
      proof (cases e)
        case None
        with Cons.IH[OF eq] File True rr show ?thesis by simp
      next
        case (Some x)
        with eq File True rr show ?thesis by simp
      qed
    qed
  qed
qed

lemma pd_consolidate_artifact_cong:
  "artifacts w1 out = artifacts w2 out \<Longrightarrow>
   artifacts (fst (pd_consolidate pd out fs w1)) out = artifacts (fst (pd_consolidate pd out fs w2)) out
   \<and> snd (pd_consolidate pd out fs w1) = snd (pd_consolidate pd out fs w2)"
proof (induction fs arbitrary: w1 w2)
  case Nil
  then show ?case by simp
next
  case (Cons f fs)
  show ?case
  proof (cases f)
    case (NotFile p)
    with Cons.IH[OF Cons.prems] show ?thesis by simp
  next
    case (File p c)
    show ?thesis
    proof (cases "lower (suffix p) = ''.csv''")
      case True
      obtain recs e where r: "read_pd_csv pd c = (recs, e)" by (cases "read_pd_csv pd c")
      have eq: "artifacts (write_records out recs w1) out = artifacts (write_records out recs w2) out"
        using Cons.prems by (simp add: artifacts_write_records)
      show ?thesis
      proof (cases e)
        case None
        with Cons.IH[OF eq] File True r show ?thesis by simp
      next
        case (Some x)
        with eq File True r show ?thesis by simp
      qed
    next
      case False
      show ?thesis
      proof (cases "lower (suffix p) = ''.json''")
        case True
        let ?recs = "fst (read_pd_json_body c)"
        have r: "read_pd_json p c w1 = (?recs, snd (read_pd_json p c w1))"
                "read_pd_json p c w2 = (?recs, snd (read_pd_json p c w2))"
          by (simp_all add: prod_eq_iff)
        have eq: "artifacts (write_records out ?recs (snd (read_pd_json p c w1))) out
                = artifacts (write_records out ?recs (snd (read_pd_json p c w2))) out"
          using Cons.prems by (simp add: artifacts_write_records)
        have "pd_consolidate pd out (f # fs) w1
                = pd_consolidate pd out fs (write_records out ?recs (snd (read_pd_json p c w1)))"
             "pd_consolidate pd out (f # fs) w2
                = pd_consolidate pd out fs (write_records out ?recs (snd (read_pd_json p c w2)))"
          using File False True by (simp_all add: prod.case_eq_if)
        with Cons.IH[OF eq] show ?thesis by simp
      next
        case nj: False
        have eq: "artifacts (print (''Unsupported file format: '' @ p) w1) out
                = artifacts (print (''Unsupported file format: '' @ p) w2) out"
          using Cons.prems by simp
        with Cons.IH[OF eq] File False nj show ?thesis by simp
      qed
    qed
  qed
qed

text \<open>
  C8. Opening the output truncates it: the artifact a folder's run leaves holds nothing
  of its prior content, so a second run over the unchanged folder leaves the same
  decoded text as the first, in either pipeline.
\<close>

theorem rerun_same_artifact:
  "artifacts (fst (process_folder d fs (fst (process_folder d fs w)))) (output_path d)
     = artifacts (fst (process_folder d fs w)) (output_path d)
   \<and> artifacts (fst (pd_process_folder pd d fs (fst (pd_process_folder pd d fs w)))) (output_path d)
     = artifacts (fst (pd_process_folder pd d fs w)) (output_path d)
   \<and> artifacts (fst (process_folder d fs w)) (output_path d)
     = artifacts (fst (process_folder d fs empty_world)) (output_path d)
   \<and> artifacts (fst (pd_process_folder pd d fs w)) (output_path d)
     = artifacts (fst (pd_process_folder pd d fs empty_world)) (output_path d)"
  using consolidate_artifact_cong[of "open_output (output_path d) (fst (process_folder d fs w))"
          "output_path d" "open_output (output_path d) w" fs]
        consolidate_artifact_cong[of "open_output (output_path d) w"
          "output_path d" "open_output (output_path d) empty_world" fs]
        pd_consolidate_artifact_cong[of "open_output (output_path d) (fst (pd_process_folder pd d fs w))"
          "output_path d" "open_output (output_path d) w" pd fs]
        pd_consolidate_artifact_cong[of "open_output (output_path d) w"
          "output_path d" "open_output (output_path d) empty_world" pd fs]
  by (simp add: process_folder_def pd_process_folder_def)

section \<open>The fuel of \<open>decode\<close> is enough\<close>

lemma skip_ws_length: "length (skip_ws s) \<le> length s"
  by (simp add: skip_ws_def length_dropWhile_le)

lemma scanstring_length: "scanstring acc cs = Parsed str r \<Longrightarrow> length r \<le> length cs"
proof (induction acc cs arbitrary: str r rule: scanstring.induct)
  case (1 acc)
  then show ?case by simp
next
  case (2 acc c cs)
  show ?case
  proof (cases "c = CHR 0x22")
    case True
    with "2.prems" show ?thesis by simp
  next
    case nq: False
    show ?thesis
    proof (cases "c = CHR 0x5C")
      case True
      from "2.prems" nq True obtain n k where u: "unescape cs = Some (n, k)"
        by (auto split: option.splits)
      with "2.prems" nq True have "scanstring (acc @ [n]) (drop k cs) = Parsed str r" by simp
      from "2.IH"(1)[OF nq True u refl this] show ?thesis by simp
    next
      case False
      with "2.prems" nq have nc: "\<not> ord c \<le> 31" and "scanstring (acc @ [ord c]) cs = Parsed str r"
        by (auto split: if_splits)
      from "2.IH"(2)[OF nq False nc this(2)] show ?thesis by simp
    qed
  qed
qed

lemma match_number_length: "match_number py s = Parsed v r \<Longrightarrow> length r < length s"
proof -
  assume a: "match_number py s = Parsed v r"
  define neg where "neg = (take 1 s = ''-'')"
  define s1 where "s1 = (if neg then drop 1 s else s)"
  define ipart where "ipart = (case s1 of [] \<Rightarrow> []
       | c # cs \<Rightarrow> if c = CHR ''0'' then [c] else if is_digit c then c # takeWhile is_digit cs else [])"
  define r1 where "r1 = drop (length ipart) s1"
  define fpart where "fpart = (case r1 of [] \<Rightarrow> []
       | d # r \<Rightarrow> if d = CHR ''.'' then takeWhile is_digit r else [])"
  define r2 where "r2 = (if fpart = [] then r1 else drop (1 + length fpart) r1)"
  define ex where "ex = (case r2 of [] \<Rightarrow> None
       | x # r \<Rightarrow> if x = CHR ''e'' \<or> x = CHR ''E''
                  then (case exponent r of None \<Rightarrow> None | Some (sg, ds) \<Rightarrow> Some (x # sg, ds))
                  else None)"
  define r3 where "r3 = (case ex of None \<Rightarrow> r2 | Some (mark, ds) \<Rightarrow> drop (length mark + length ds) r2)"
  have ne: "ipart \<noteq> []" and r: "r = r3"
    using a
    unfolding match_number_def Let_def neg_def[symmetric] s1_def[symmetric] ipart_def[symmetric]
      r1_def[symmetric] fpart_def[symmetric] r2_def[symmetric] ex_def[symmetric] r3_def[symmetric]
    by (auto split: if_splits)
  have le: "length ipart \<le> length s1"
    by (auto simp: ipart_def split: list.splits intro: le_trans[OF length_takeWhile_le])
  have pos: "0 < length ipart" using ne by simp
  have "length r1 = length s1 - length ipart" by (simp add: r1_def)
  with le pos have "length r1 < length s1" by arith
  moreover have "length s1 \<le> length s" by (simp add: s1_def)
  moreover have "length r2 \<le> length r1" by (simp add: r2_def)
  moreover have "length r3 \<le> length r2" by (simp add: r3_def split: option.splits)
  ultimately show ?thesis using r by simp
qed

lemma scan_length:
  "(scan_once py n s = Parsed v r \<longrightarrow> length r < length s)
   \<and> (parse_array py n acc s = Parsed v r \<longrightarrow> length r < length s)
   \<and> (parse_object py n dacc s = Parsed v r \<longrightarrow> length r < length s)"
proof (induction n arbitrary: s v r acc dacc)
  case 0
  show ?case by simp
next
  case (Suc n)
  have ih1: "\<And>s v r. scan_once py n s = Parsed v r \<Longrightarrow> length r < length s"
    using Suc by blast
  have ih2: "\<And>s v r acc. parse_array py n acc s = Parsed v r \<Longrightarrow> length r < length s"
    using Suc by blast
  have ih3: "\<And>s v r dacc. parse_object py n dacc s = Parsed v r \<Longrightarrow> length r < length s"
    using Suc by blast
  have p1: "scan_once py (Suc n) s = Parsed v r \<longrightarrow> length r < length s"
  proof
    assume a: "scan_once py (Suc n) s = Parsed v r"
    show "length r < length s"
    proof (cases s)
      case Nil
      with a show ?thesis by simp
    next
      case (Cons c cs)
      consider (str) "c = CHR 0x22"
        | (obj) "c \<noteq> CHR 0x22" "c = CHR ''{''"
        | (arr) "c \<noteq> CHR 0x22" "c \<noteq> CHR ''{''" "c = CHR ''[''"
        | (other) "c \<noteq> CHR 0x22" "c \<noteq> CHR ''{''" "c \<noteq> CHR ''[''"
        by blast
      then show ?thesis
      proof cases
        case str
        with a Cons obtain str' where "scanstring [] cs = Parsed str' r"
          by (auto split: scan.splits)
        from scanstring_length[OF this] Cons show ?thesis by simp
      next
        case obj
        from a Cons obj obtain d r0 where w: "skip_ws cs = d # r0"
          by (auto split: list.splits)
        have le: "length (d # r0) \<le> length cs" using skip_ws_length[of cs] w by simp
        show ?thesis
        proof (cases "d = CHR ''}''")
          case True
          with a Cons obj w le show ?thesis by auto
        next
          case False
          with a Cons obj w have "parse_object py n [] (d # r0) = Parsed v r" by simp
          from ih3[OF this] le Cons show ?thesis by simp
        qed
      next
        case arr
        from a Cons arr obtain d r0 where w: "skip_ws cs = d # r0"
          by (auto split: list.splits)
        have le: "length (d # r0) \<le> length cs" using skip_ws_length[of cs] w by simp
        show ?thesis
        proof (cases "d = CHR '']''")
          case True
          with a Cons arr w le show ?thesis by auto
        next
          case False
          with a Cons arr w have "parse_array py n [] (d # r0) = Parsed v r" by simp
          from ih2[OF this] le Cons show ?thesis by simp
        qed
      next
        case other
        with a Cons match_number_length[of py s v r] show ?thesis
          by (auto simp: starts_with_def split: if_splits)
      qed
    qed
  qed
  have p2: "parse_array py (Suc n) acc s = Parsed v r \<longrightarrow> length r < length s"
  proof
    assume a: "parse_array py (Suc n) acc s = Parsed v r"
    from a obtain v' r' where s1: "scan_once py n s = Parsed v' r'"
      by (auto split: scan.splits)
    have l1: "length r' < length s" using ih1[OF s1] .
    from a s1 obtain c r'' where w: "skip_ws r' = c # r''"
      by (auto split: list.splits)
    have l2: "length r'' < length r'" using skip_ws_length[of r'] w by simp
    show "length r < length s"
    proof (cases "c = CHR '']''")
      case True
      with a s1 w l1 l2 show ?thesis by auto
    next
      case False
      with a s1 w have "parse_array py n (acc @ [v']) (skip_ws r'') = Parsed v r"
        by (auto split: if_splits)
      from ih2[OF this] skip_ws_length[of r''] l1 l2 show ?thesis by simp
    qed
  qed
  have p3: "parse_object py (Suc n) dacc s = Parsed v r \<longrightarrow> length r < length s"
  proof
    assume a: "parse_object py (Suc n) dacc s = Parsed v r"
    from a obtain q ks where s: "s = q # ks" and q: "q = CHR 0x22"
      by (auto split: list.splits if_splits)
    from a s q obtain key r0 where k: "scanstring [] ks = Parsed key r0"
      by (auto split: scan.splits)
    have l0: "length r0 \<le> length ks" using scanstring_length[OF k] .
    from a s q k obtain c r1 where w1: "skip_ws r0 = c # r1" and c: "c = CHR '':''"
      by (auto split: list.splits if_splits)
    have l1: "length r1 < length r0" using skip_ws_length[of r0] w1 by simp
    from a s q k w1 c obtain v' r2 where s1: "scan_once py n (skip_ws r1) = Parsed v' r2"
      by (auto split: scan.splits)
    have l2: "length r2 < length r1" using ih1[OF s1] skip_ws_length[of r1] by simp
    from a s q k w1 c s1 obtain d r3 where w2: "skip_ws r2 = d # r3"
      by (auto split: list.splits)
    have l3: "length r3 < length r2" using skip_ws_length[of r2] w2 by simp
    show "length r < length s"
    proof (cases "d = CHR ''}''")
      case True
      with a s q k w1 c s1 w2 l0 l1 l2 l3 show ?thesis by auto
    next
      case False
      with a s q k w1 c s1 w2
      have "parse_object py n (dict_set dacc (Some key) v') (skip_ws r3) = Parsed v r"
        by (auto split: if_splits)
      from ih3[OF this] skip_ws_length[of r3] s l0 l1 l2 l3 show ?thesis by simp
    qed
  qed
  from p1 p2 p3 show ?case by blast
qed

lemma scanstring_fuel: "scanstring acc cs \<noteq> NoFuel"
proof (induction acc cs rule: scanstring.induct)
  case (1 acc)
  then show ?case by simp
next
  case (2 acc c cs)
  then show ?case by (auto split: option.splits)
qed

lemma match_number_fuel: "match_number py s \<noteq> NoFuel"
  by (auto simp: match_number_def Let_def split: if_splits)

lemma scan_fuel:
  "(2 * length s < n \<longrightarrow> scan_once py n s \<noteq> NoFuel)
   \<and> (2 * length s + 1 < n \<longrightarrow> parse_array py n acc s \<noteq> NoFuel)
   \<and> (2 * length s + 1 < n \<longrightarrow> parse_object py n dacc s \<noteq> NoFuel)"
proof (induction n arbitrary: s acc dacc)
  case 0
  show ?case by simp
next
  case (Suc n)
  have ih1: "\<And>s. 2 * length s < n \<Longrightarrow> scan_once py n s \<noteq> NoFuel"
    using Suc by blast
  have ih2: "\<And>s acc. 2 * length s + 1 < n \<Longrightarrow> parse_array py n acc s \<noteq> NoFuel"
    using Suc by blast
  have ih3: "\<And>s dacc. 2 * length s + 1 < n \<Longrightarrow> parse_object py n dacc s \<noteq> NoFuel"
    using Suc by blast
  have p1: "2 * length s < Suc n \<longrightarrow> scan_once py (Suc n) s \<noteq> NoFuel"
  proof
    assume f: "2 * length s < Suc n"
    show "scan_once py (Suc n) s \<noteq> NoFuel"
    proof (cases s)
      case Nil
      then show ?thesis by simp
    next
      case (Cons c cs)
      consider (str) "c = CHR 0x22"
        | (obj) "c \<noteq> CHR 0x22" "c = CHR ''{''"
        | (arr) "c \<noteq> CHR 0x22" "c \<noteq> CHR ''{''" "c = CHR ''[''"
        | (other) "c \<noteq> CHR 0x22" "c \<noteq> CHR ''{''" "c \<noteq> CHR ''[''"
        by blast
      then show ?thesis
      proof cases
        case str
        with Cons scanstring_fuel[of "[]" cs] show ?thesis by (auto split: scan.splits)
      next
        case obj
        show ?thesis
        proof (cases "skip_ws cs")
          case Nil
          with Cons obj show ?thesis by simp
        next
          case (Cons d r0)
          have "length (d # r0) \<le> length cs" using skip_ws_length[of cs] Cons by simp
          then have "2 * length (d # r0) + 1 < n" using f \<open>s = c # cs\<close> by simp
          from ih3[OF this] Cons obj \<open>s = c # cs\<close> show ?thesis by simp
        qed
      next
        case arr
        show ?thesis
        proof (cases "skip_ws cs")
          case Nil
          with Cons arr show ?thesis by simp
        next
          case (Cons d r0)
          have "length (d # r0) \<le> length cs" using skip_ws_length[of cs] Cons by simp
          then have "2 * length (d # r0) + 1 < n" using f \<open>s = c # cs\<close> by simp
          from ih2[OF this] Cons arr \<open>s = c # cs\<close> show ?thesis by simp
        qed
      next
        case other
        with Cons match_number_fuel[of py s] show ?thesis by simp
      qed
    qed
  qed
  have p2: "2 * length s + 1 < Suc n \<longrightarrow> parse_array py (Suc n) acc s \<noteq> NoFuel"
  proof
    assume f: "2 * length s + 1 < Suc n"
    then have f1: "2 * length s < n" by simp
    show "parse_array py (Suc n) acc s \<noteq> NoFuel"
    proof (cases "scan_once py n s")
      case NoFuel
      with ih1[OF f1] show ?thesis by simp
    next
      case (Raise e)
      then show ?thesis by simp
    next
      case (Parsed v' r')
      have l1: "length r' < length s" using scan_length[of py n s v' r'] Parsed by simp
      show ?thesis
      proof (cases "skip_ws r'")
        case Nil
        with Parsed show ?thesis by simp
      next
        case (Cons c r'')
        have l2: "length r'' < length r'" using skip_ws_length[of r'] Cons by simp
        have "2 * length (skip_ws r'') + 1 < n"
          using skip_ws_length[of r''] l1 l2 f by simp
        from ih2[OF this] Parsed Cons show ?thesis by simp
      qed
    qed
  qed
  have p3: "2 * length s + 1 < Suc n \<longrightarrow> parse_object py (Suc n) dacc s \<noteq> NoFuel"
  proof
    assume f: "2 * length s + 1 < Suc n"
    show "parse_object py (Suc n) dacc s \<noteq> NoFuel"
    proof (cases s)
      case Nil
      then show ?thesis by simp
    next
      case (Cons q ks)
      show ?thesis
      proof (cases "q = CHR 0x22")
        case False
        with Cons show ?thesis by simp
      next
        case True
        show ?thesis
        proof (cases "scanstring [] ks")
          case NoFuel
          with scanstring_fuel[of "[]" ks] show ?thesis by simp
        next
          case (Raise e)
          with Cons True show ?thesis by simp
        next
          case (Parsed key r0)
          have l0: "length r0 \<le> length ks" using scanstring_length[OF Parsed] .
          show ?thesis
          proof (cases "skip_ws r0")
            case Nil
            with Cons True Parsed show ?thesis by simp
          next
            case c1: (Cons c r1)
            have l1: "length r1 < length r0" using skip_ws_length[of r0] c1 by simp
            show ?thesis
            proof (cases "c = CHR '':''")
              case False
              with Cons True Parsed c1 show ?thesis by simp
            next
              case colon: True
              have f1: "2 * length (skip_ws r1) < n"
                using skip_ws_length[of r1] l0 l1 f Cons by simp
              show ?thesis
              proof (cases "scan_once py n (skip_ws r1)")
                case NoFuel
                with ih1[OF f1] show ?thesis by simp
              next
                case (Raise e)
                with Cons True Parsed c1 colon show ?thesis by simp
              next
                case p: (Parsed v' r2)
                have l2: "length r2 < length (skip_ws r1)"
                  using scan_length[of py n "skip_ws r1" v' r2] p by simp
                show ?thesis
                proof (cases "skip_ws r2")
                  case Nil
                  with Cons True Parsed c1 colon p show ?thesis by simp
                next
                  case c2: (Cons d r3)
                  have l3: "length r3 < length r2" using skip_ws_length[of r2] c2 by simp
                  have "2 * length (skip_ws r3) + 1 < n"
                    using skip_ws_length[of r3] skip_ws_length[of r1] l0 l1 l2 l3 f Cons by simp
                  from ih3[OF this] Cons True Parsed c1 colon p c2 show ?thesis by simp
                qed
              qed
            qed
          qed
        qed
      qed
    qed
  qed
  from p1 p2 p3 show ?case by blast
qed

lemma fuel_of_eq: "fuel_of s = 2 * length s + 1"
  by (induction s) simp_all

text \<open>
  \<open>decode\<close> never runs out of fuel, so \<open>json_loads\<close> fails only where the scanner raises.
\<close>

lemma decode_fuel: "decode py s \<noteq> NoFuel"
proof -
  have "2 * length (skip_ws s) < fuel_of s"
    using skip_ws_length[of s] by (simp add: fuel_of_eq)
  then have "scan_once py (fuel_of s) (skip_ws s) \<noteq> NoFuel"
    using scan_fuel[of "skip_ws s" "fuel_of s" py] by blast
  then show ?thesis
    by (auto simp: decode_def split: scan.splits)
qed

lemma json_loads_total:
  "(\<exists>v. decode True s = Parsed v [] \<and> json_loads s = Inr v)
   \<or> (\<exists>e. decode True s = Raise e \<and> json_loads s = Inl e)"
  using decode_fuel[of True s]
  by (cases "decode True s") (auto simp: json_loads_def decode_def split: scan.splits if_splits)

section \<open>The values \<open>json_loads\<close> returns\<close>










section \<open>Every record is written on one line\<close>











lemma line_count_append [simp]: "line_count (a @ b) = line_count a + line_count b"
  by (simp add: line_count_def)


section \<open>The driver\<close>

text \<open>
  C9. For each directory of the landing zone, \<open>main\<close> with the option \<^verbatim>\<open>'pandas'\<close> prints
  "processing with pandas" and runs \<open>process_folder\<close>, the pipeline of \<^verbatim>\<open>csv.DictReader\<close>
  and line-by-line JSON reading; with any other option it prints "processing in python
  generators" and runs \<open>pd_process_folder\<close>, the pandas pipeline.
\<close>

theorem main_runs_the_other_pipeline:
  "main pd option (Dir p fs # rest) w =
     (case (if option = ''pandas''
            then process_folder p fs (print (''processing with pandas: '' @ path_name p) w)
            else pd_process_folder pd p fs
                   (print (''processing in python generators : '' @ path_name p) w)) of
        (w', None) \<Rightarrow> main pd option rest w'
      | (w', Some e) \<Rightarrow> (w', Some e))"
  by (auto split: prod.splits option.splits)

theorem main_runs_the_other_pipeline_witness:
  "main pd_int_cells ''pandas''
     [Dir ''raw_data/t'' [File ''raw_data/t/x.csv'' (Text ''a,b,c\<newline>1,2,3\<newline>'')]] empty_world
     = (empty_world\<lparr>artifacts := [''processed_data/t.json.gz'' \<mapsto>
                                       ''{\"a\": \"1\", \"b\": \"2\", \"c\": \"3\"}\<newline>''],
                     stdout := [''processing with pandas: t'']\<rparr>, None)
   \<and> main pd_int_cells ''generators''
     [Dir ''raw_data/t'' [File ''raw_data/t/x.csv'' (Text ''a,b,c\<newline>1,2,3\<newline>'')]] empty_world
     = (empty_world\<lparr>artifacts := [''processed_data/t.json.gz'' \<mapsto>
                                       ''{\"a\": 1, \"b\": 2, \"c\": 3}\<newline>''],
                     stdout := [''processing in python generators : t'']\<rparr>, None)"
  using main_runs_the_other_pipeline[of pd_int_cells "''pandas''" "''raw_data/t''"
          "[File ''raw_data/t/x.csv'' (Text ''a,b,c\<newline>1,2,3\<newline>'')]" "[]" empty_world]
        main_runs_the_other_pipeline[of pd_int_cells "''generators''" "''raw_data/t''"
          "[File ''raw_data/t/x.csv'' (Text ''a,b,c\<newline>1,2,3\<newline>'')]" "[]" empty_world]
  by (simp add: eval_defs pd_int_cells_def)

section \<open>The JSON readers\<close>

text \<open>
  C4 (defect of the code). A JSON file that cannot be opened: \<open>read_json\<close> has no handler,
  so in \<open>process_folder\<close> the \<^verbatim>\<open>OSError\<close> ends the folder's run, nothing is reported and the
  sibling file is never read, where the claim expects the error caught and reported at the
  reader. \<open>read_pd_json\<close> does what the claim says: it prints the error, yields nothing
  and the sibling file is processed.
\<close>

theorem unreadable_json_ends_the_run:
  "process_folder ''raw_data/t''
      [File ''raw_data/t/a.json'' (Unreadable ''Permission denied''),
       File ''raw_data/t/b.json'' (Text ''{\"x\":1}'')] empty_world
     = (empty_world\<lparr>artifacts := [''processed_data/t.json.gz'' \<mapsto> []]\<rparr>,
        Some (OSError ''Permission denied''))
   \<and> pd_process_folder pd ''raw_data/t''
      [File ''raw_data/t/a.json'' (Unreadable ''Permission denied''),
       File ''raw_data/t/b.json'' (Text ''{\"x\":1}'')] empty_world
     = (empty_world\<lparr>artifacts := [''processed_data/t.json.gz'' \<mapsto> ''{\"x\": 1}\<newline>''],
                     stdout := [''Error reading raw_data/t/a.json: Permission denied'']\<rparr>, None)"
  by (simp add: eval_defs)

lemma first_char_translate: "take 1 (translate_newlines raw) = ''['' \<longleftrightarrow> take 1 raw = ''[''"
  by (cases raw rule: translate_newlines.cases) auto


text \<open>
  C3 (as amended). Both JSON readers decide the mode on the first character of the file:
  \<^verbatim>\<open>[\<close> selects array mode and anything else, whitespace included, newline-delimited
  mode.
\<close>

theorem json_mode_by_first_char:
  "read_json (Text raw) =
     (if take 1 raw = ''['' then read_array (translate_newlines raw)
      else read_lines (iter_lines [] (translate_newlines raw)))
   \<and> read_pd_json_body (Text raw) =
     (if take 1 raw = ''['' then read_array (translate_newlines raw)
      else read_pd_lines (iter_lines [] (translate_newlines raw)))"
  using first_char_translate[of raw] by (simp add: read_json_def read_pd_json_body_def Let_def)

text \<open>
  C3 as stated fails: in a file that starts with a space its first non-whitespace character
  is \<^verbatim>\<open>[\<close>, yet the reader works in newline-delimited mode and yields the whole array as
  one record, where array mode yields its two items.
\<close>

theorem json_mode_first_nonspace_counterexample:
  "take 1 (dropWhile isspace '' [1, 2]'') = ''[''
   \<and> read_json (Text '' [1, 2]'') = ([PyList [PyInt 1, PyInt 2]], None)
   \<and> read_array '' [1, 2]'' = ([PyInt 1, PyInt 2], None)
   \<and> read_json (Text '' [1, 2]'') \<noteq> read_array '' [1, 2]''"
  by (simp add: eval_defs)








section \<open>Validity of the lines written\<close>

text \<open>
  C1 (defect of the code). \<^verbatim>\<open>json.dump\<close> writes a float \<^verbatim>\<open>nan\<close> as \<^verbatim>\<open>NaN\<close>, which is not
  JSON. The pandas pipeline writes such a line for a CSV file with an empty cell, and the
  generator pipeline for a JSON line holding \<^verbatim>\<open>NaN\<close>, which \<^verbatim>\<open>json.loads\<close> accepts.
\<close>

theorem nan_line_is_not_json:
  "artifacts (fst (pd_process_folder pd_missing_cell ''raw_data/t''
                     [File ''raw_data/t/x.csv'' (Text ''a,b\<newline>1,\<newline>'')] empty_world))
     ''processed_data/t.json.gz'' = Some ''{\"a\": 1, \"b\": NaN}\<newline>''
   \<and> \<not> valid_json ''{\"a\": 1, \"b\": NaN}''
   \<and> artifacts (fst (process_folder ''raw_data/t''
                     [File ''raw_data/t/y.json'' (Text ''{\"a\": NaN}\<newline>'')] empty_world))
     ''processed_data/t.json.gz'' = Some ''{\"a\": NaN}\<newline>''
   \<and> \<not> valid_json ''{\"a\": NaN}''
   \<and> valid_json ''{\"a\": 1, \"b\": null}''"
  by (simp add: eval_defs pd_missing_cell_def)

section \<open>The delimited-text reader\<close>













section \<open>The number of lines of an artifact\<close>









end
